theory Spec2Isabelle
  imports Complex_Main
begin

section \<open>Values exchanged with the API\<close>

text \<open>
  The pages hold what \<^verbatim>\<open>res.json()\<close> returned. A value of type \<^verbatim>\<open>any\<close> is a JSON
  document; \<open>JNull\<close> is JavaScript's \<^verbatim>\<open>null\<close>, which is also the initial value of the
  \<^verbatim>\<open>result\<close> state. An object is the list of its members in insertion order.
  Numbers are the finite doubles, written as the rationals they denote; \<^verbatim>\<open>NaN\<close>, the
  infinities and the sign of zero are outside the model.
\<close>

datatype json =
    JNull
  | JBool bool
  | JNum rat
  | JStr string
  | JArr "json list"
  | JObj "(string \<times> json) list"

text \<open>\<^verbatim>\<open>v.k\<close> for a name \<open>k\<close> that only an object can own (\<^verbatim>\<open>spec\<close>, \<^verbatim>\<open>warnings\<close>):
  \<open>None\<close> is \<^verbatim>\<open>undefined\<close>. A later member of the same name wins, as in \<^verbatim>\<open>JSON.parse\<close>.\<close>

fun member :: "json \<Rightarrow> string \<Rightarrow> json option" where
  "member (JObj kvs) k = map_of (rev kvs) k"
| "member _ k = None"

text \<open>\<^verbatim>\<open>v.length\<close> on a value that is not \<^verbatim>\<open>null\<close>.\<close>

fun length_of :: "json \<Rightarrow> json option" where
  "length_of (JArr xs) = Some (JNum (of_nat (length xs)))"
| "length_of (JStr s) = Some (JNum (of_nat (length s)))"
| "length_of (JObj kvs) = member (JObj kvs) ''length''"
| "length_of _ = None"

text \<open>JavaScript truthiness of a JSON value, and of a possibly \<^verbatim>\<open>undefined\<close> one.\<close>

fun truthy :: "json \<Rightarrow> bool" where
  "truthy JNull = False"
| "truthy (JBool b) = b"
| "truthy (JNum x) = (x \<noteq> 0)"
| "truthy (JStr s) = (s \<noteq> [])"
| "truthy (JArr _) = True"
| "truthy (JObj _) = True"

fun truthy_opt :: "json option \<Rightarrow> bool" where
  "truthy_opt None = False"
| "truthy_opt (Some v) = truthy v"

text \<open>\<^verbatim>\<open>v?.k\<close>: \<^verbatim>\<open>undefined\<close> when \<open>v\<close> is \<^verbatim>\<open>null\<close>, the member otherwise.\<close>

definition opt_member :: "json \<Rightarrow> string \<Rightarrow> json option" where
  "opt_member v k = (if v = JNull then None else member v k)"

text \<open>\<^verbatim>\<open>w?.length\<close> for a possibly \<^verbatim>\<open>undefined\<close> \<open>w\<close>.\<close>

fun opt_length :: "json option \<Rightarrow> json option" where
  "opt_length None = None"
| "opt_length (Some JNull) = None"
| "opt_length (Some w) = length_of w"

subsection \<open>What the JavaScript engine supplies\<close>

text \<open>
  The primitives whose results the pages only pass on: the text of a number, the
  upper-casing of a string, and the messages of the \<^verbatim>\<open>TypeError\<close>s the engine raises.
\<close>

record engine =
  number_to_string :: "rat \<Rightarrow> string"
  toUpperCase :: "string \<Rightarrow> string"
  null_property_message :: string
  not_a_function_message :: string

text \<open>The decimal text of a natural number, as a template literal writes \<^verbatim>\<open>res.status\<close>.\<close>

fun decimal :: "nat \<Rightarrow> string" where
  "decimal k = (if k < 10 then [''0123456789'' ! k]
                else decimal (k div 10) @ [''0123456789'' ! (k mod 10)])"

declare decimal.simps [simp del]

fun join_with :: "string \<Rightarrow> string list \<Rightarrow> string" where
  "join_with sep [] = []"
| "join_with sep [x] = x"
| "join_with sep (x # y # ys) = x @ sep @ join_with sep (y # ys)"

text \<open>The string an array element contributes to \<^verbatim>\<open>Array.prototype.join\<close>: \<^verbatim>\<open>null\<close>
  gives the empty string, a nested array is joined with commas.\<close>

fun element_string :: "engine \<Rightarrow> json \<Rightarrow> string" where
  "element_string eng JNull = []"
| "element_string eng (JBool b) = (if b then ''true'' else ''false'')"
| "element_string eng (JNum x) = number_to_string eng x"
| "element_string eng (JStr s) = s"
| "element_string eng (JArr xs) = join_with '','' (map (element_string eng) xs)"
| "element_string eng (JObj kvs) = ''[object Object]''"

definition join :: "engine \<Rightarrow> json list \<Rightarrow> string \<Rightarrow> string" where
  "join eng xs sep = join_with sep (map (element_string eng) xs)"

text \<open>\<^verbatim>\<open>JSON.stringify\<close> of an object literal, as the JSON document it writes: a member
  whose value is \<^verbatim>\<open>undefined\<close> is left out, the others keep their order.\<close>

definition JSON_stringify :: "(string \<times> json option) list \<Rightarrow> json" where
  "JSON_stringify props =
     JObj (concat (map (\<lambda>(k, v). case v of None \<Rightarrow> [] | Some j \<Rightarrow> [(k, j)]) props))"

subsection \<open>Typed responses\<close>

text \<open>The bodies of the two simulation endpoints are taken at the types the page
  declares for them.\<close>

record SimSummary =
  yards_mean :: rat
  yards_p10 :: rat
  yards_p50 :: rat
  yards_p90 :: rat
  td_rate :: rat
  fg_rate :: rat
  turnover_rate :: rat
  assumptions :: "string list"
  seed :: rat

datatype play_result =
  GAIN | FIRST_DOWN | TOUCHDOWN | TURNOVER_ON_DOWNS | FIELD_GOAL_GOOD | FIELD_GOAL_MISS | PUNT

record DrivePlay =
  down :: rat
  distance :: rat
  yardline_100 :: rat
  call_type :: string
  yards :: rat
  result :: play_result

datatype drive_end = TD | FG_GOOD | FG_MISS | PUNT_END | DOWNS | EXHAUSTED

record DriveSummary =
  plays :: "DrivePlay list"
  points_for_offense :: rat
  time_elapsed_seconds :: rat
  ended :: drive_end

section \<open>Requests and their outcomes\<close>

record request =
  url :: string
  http_method :: string
  headers :: "(string \<times> string) list"
  body :: "json option"
  cache :: "string option"

text \<open>
  What awaiting \<^verbatim>\<open>fetch\<close> and then \<^verbatim>\<open>res.json()\<close> can give: the fetch rejects with an
  error of some message, or a response arrives with a status and a body that either
  fails to parse (an error with a message) or is the data.
\<close>

datatype 'a fetch_outcome =
    Rejected string
  | Responded nat "string + 'a"

definition ok :: "nat \<Rightarrow> bool" where
  "ok status = (200 \<le> status \<and> status \<le> 299)"

text \<open>\<^verbatim>\<open>process.env.NEXT_PUBLIC_API_BASE ?? "http://localhost:8000"\<close>\<close>

definition API :: "string option \<Rightarrow> string" where
  "API env = (case env of None \<Rightarrow> ''http://localhost:8000'' | Some b \<Rightarrow> b)"

text \<open>\<^verbatim>\<open>err.message || dflt\<close>\<close>

definition message_or :: "string \<Rightarrow> string \<Rightarrow> string" where
  "message_or m dflt = (if m = [] then dflt else m)"

text \<open>The part of each \<^verbatim>\<open>try\<close> block that is the same in all handlers: await the
  fetch, throw \<^verbatim>\<open>Error(`HTTP ${res.status}`)\<close> unless \<^verbatim>\<open>res.ok\<close>, await the body.
  \<open>Inl\<close> is the message of what was thrown.\<close>

definition await_json :: "'a fetch_outcome \<Rightarrow> string + 'a" where
  "await_json outcome =
     (case outcome of
        Rejected m \<Rightarrow> Inl m
      | Responded status b \<Rightarrow>
          if \<not> ok status then Inl (''HTTP '' @ decimal status) else b)"

section \<open>The pages\<close>

record form_state =
  text' :: string
  offense :: string
  defense :: string
  result :: json
  warning :: "string option"
  loading :: bool

record builder_state = form_state +
  n :: rat
  seed :: "rat option"
  sim :: "SimSummary option"
  drive :: "DriveSummary option"


text \<open>The initial \<^verbatim>\<open>useState\<close> values; \<open>r\<close> is \<^verbatim>\<open>Math.floor(Math.random() * 1e9)\<close>.\<close>

definition init_form :: form_state where
  "init_form =
     \<lparr>text' = ''3rd & 8 on DAL 42, 2:05 Q4, down 3, deep middle pass, 11 personnel'',
      offense = ''DAL'', defense = ''PHI'', result = JNull, warning = None,
      loading = False\<rparr>"

definition init_builder :: "nat \<Rightarrow> builder_state" where
  "init_builder r =
     \<lparr>text' = ''3rd & 8 on DAL 42, 2:05 Q4, down 3, deep middle pass, 11 personnel'',
      offense = ''DAL'', defense = ''PHI'', result = JNull, warning = None,
      loading = False, n = 1000, seed = Some (of_nat r), sim = None, drive = None\<rparr>"

subsection \<open>Input change handlers\<close>

text \<open>
  The text, offense and defense inputs are the same on both builder pages. A number
  input's value is the empty string (\<open>None\<close>) or the text of a number (\<open>Some x\<close>);
  \<^verbatim>\<open>Number("")\<close> is 0.
\<close>

datatype form_change =
    ChangeText string
  | ChangeOffense string
  | ChangeDefense string

datatype change =
    Form form_change
  | ChangeN "rat option"
  | ChangeSeed "rat option"

definition setText :: "string \<Rightarrow> 'a form_state_scheme \<Rightarrow> 'a form_state_scheme" where
  "setText v s = s\<lparr>text' := v\<rparr>"

definition onChangeOffense ::
  "engine \<Rightarrow> string \<Rightarrow> 'a form_state_scheme \<Rightarrow> 'a form_state_scheme" where
  "onChangeOffense eng v s = s\<lparr>offense := toUpperCase eng v\<rparr>"

definition onChangeDefense ::
  "engine \<Rightarrow> string \<Rightarrow> 'a form_state_scheme \<Rightarrow> 'a form_state_scheme" where
  "onChangeDefense eng v s = s\<lparr>defense := toUpperCase eng v\<rparr>"

fun onFormChange ::
  "engine \<Rightarrow> form_change \<Rightarrow> 'a form_state_scheme \<Rightarrow> 'a form_state_scheme" where
  "onFormChange eng (ChangeText v) s = setText v s"
| "onFormChange eng (ChangeOffense v) s = onChangeOffense eng v s"
| "onFormChange eng (ChangeDefense v) s = onChangeDefense eng v s"

definition onChangeN :: "rat option \<Rightarrow> builder_state \<Rightarrow> builder_state" where
  "onChangeN v s = s\<lparr>n := (case v of None \<Rightarrow> 0 | Some x \<Rightarrow> x)\<rparr>"

definition onChangeSeed :: "rat option \<Rightarrow> builder_state \<Rightarrow> builder_state" where
  "onChangeSeed v s = s\<lparr>seed := (case v of None \<Rightarrow> None | Some x \<Rightarrow> Some x)\<rparr>"

fun onChange :: "engine \<Rightarrow> change \<Rightarrow> builder_state \<Rightarrow> builder_state" where
  "onChange eng (Form c) s = onFormChange eng c s"
| "onChange eng (ChangeN v) s = onChangeN v s"
| "onChange eng (ChangeSeed v) s = onChangeSeed v s"

subsection \<open>Parsing\<close>

definition parse_body :: "'a form_state_scheme \<Rightarrow> json" where
  "parse_body s =
     JSON_stringify [(''text'', Some (JStr (text' s))),
                     (''offense'', Some (JStr (offense s))),
                     (''defense'', Some (JStr (defense s)))]"

text \<open>
  \<^verbatim>\<open>setResult(data); if (data.warnings?.length) setWarning(data.warnings.join(" | "))\<close>.
  The second component is the message of the \<^verbatim>\<open>TypeError\<close> thrown, if one is: reading
  \<^verbatim>\<open>warnings\<close> of \<^verbatim>\<open>null\<close>, or calling a \<^verbatim>\<open>join\<close> that is not a function.
\<close>

definition store_parsed ::
  "engine \<Rightarrow> json \<Rightarrow> 'a form_state_scheme \<Rightarrow> 'a form_state_scheme \<times> string option" where
  "store_parsed eng data s =
     (let s1 = s\<lparr>result := data\<rparr> in
      if data = JNull then (s1, Some (null_property_message eng))
      else if truthy_opt (opt_length (member data ''warnings'')) then
        (case member data ''warnings'' of
           Some (JArr ws) \<Rightarrow> (s1\<lparr>warning := Some (join eng ws '' | '')\<rparr>, None)
         | _ \<Rightarrow> (s1, Some (not_a_function_message eng)))
      else (s1, None))"

text \<open>\<^verbatim>\<open>catch (err) { setWarning(err.message || dflt) } finally { setLoading(false) }\<close>\<close>

definition catch_finally ::
  "string \<Rightarrow> 'a form_state_scheme \<times> string option \<Rightarrow> 'a form_state_scheme" where
  "catch_finally dflt st =
     (case st of
        (s, None) \<Rightarrow> s\<lparr>loading := False\<rparr>
      | (s, Some m) \<Rightarrow> s\<lparr>warning := Some (message_or m dflt), loading := False\<rparr>)"

text \<open>What runs after the awaited fetch settles, on both builder pages.\<close>

definition parse_finish ::
  "engine \<Rightarrow> json fetch_outcome \<Rightarrow> 'a form_state_scheme \<Rightarrow> 'a form_state_scheme" where
  "parse_finish eng outcome s =
     catch_finally ''Request failed''
       (case await_json outcome of
          Inl m \<Rightarrow> (s, Some m)
        | Inr data \<Rightarrow> store_parsed eng data s)"

text \<open>\<^verbatim>\<open>onParse\<close> of the builder page with simulation, up to the awaited fetch: the
  state it leaves and the request it sends.\<close>

definition onParse_start :: "string option \<Rightarrow> builder_state \<Rightarrow> builder_state \<times> request" where
  "onParse_start env s =
     (s\<lparr>loading := True, warning := None, result := JNull, sim := None, drive := None\<rparr>,
      \<lparr>url = API env @ ''/parse-freeform'', http_method = ''POST'',
       headers = [(''Content-Type'', ''application/json'')],
       body = Some (parse_body s), cache = Some ''no-store''\<rparr>)"

definition onParse ::
  "string option \<Rightarrow> engine \<Rightarrow> json fetch_outcome \<Rightarrow> builder_state
     \<Rightarrow> builder_state \<times> request list" where
  "onParse env eng outcome s =
     (case onParse_start env s of
        (s1, r) \<Rightarrow> (parse_finish eng outcome s1, [r]))"

text \<open>\<^verbatim>\<open>onSubmit\<close> of the plain builder page.\<close>

definition onSubmit_start :: "string option \<Rightarrow> form_state \<Rightarrow> form_state \<times> request" where
  "onSubmit_start env s =
     (s\<lparr>loading := True, warning := None, result := JNull\<rparr>,
      \<lparr>url = API env @ ''/parse-freeform'', http_method = ''POST'',
       headers = [(''Content-Type'', ''application/json'')],
       body = Some (parse_body s), cache = None\<rparr>)"

definition onSubmit ::
  "string option \<Rightarrow> engine \<Rightarrow> json fetch_outcome \<Rightarrow> form_state
     \<Rightarrow> form_state \<times> request list" where
  "onSubmit env eng outcome s =
     (case onSubmit_start env s of
        (s1, r) \<Rightarrow> (parse_finish eng outcome s1, [r]))"

subsection \<open>Simulating\<close>

text \<open>\<^verbatim>\<open>seed === "" ? undefined : Number(seed)\<close>; \<^verbatim>\<open>Number\<close> of a number is that number.\<close>

definition seed_field :: "rat option \<Rightarrow> json option" where
  "seed_field sd = (case sd of None \<Rightarrow> None | Some x \<Rightarrow> Some (JNum x))"

definition onSimulatePlay_start ::
  "string option \<Rightarrow> builder_state \<Rightarrow> builder_state \<times> request option" where
  "onSimulatePlay_start env s =
     (if \<not> truthy_opt (opt_member (result s) ''spec'') then (s, None)
      else
        (s\<lparr>loading := True, warning := None, sim := None\<rparr>,
         Some \<lparr>url = API env @ ''/simulate'', http_method = ''POST'',
               headers = [(''Content-Type'', ''application/json'')],
               body = Some (JSON_stringify
                        [(''spec'', member (result s) ''spec''),
                         (''n'', Some (JNum (n s))),
                         (''seed'', seed_field (seed s))]),
               cache = None\<rparr>))"

definition onSimulatePlay_finish ::
  "SimSummary fetch_outcome \<Rightarrow> builder_state \<Rightarrow> builder_state" where
  "onSimulatePlay_finish outcome s =
     catch_finally ''Sim request failed''
       (case await_json outcome of
          Inl m \<Rightarrow> (s, Some m)
        | Inr data \<Rightarrow> (s\<lparr>sim := Some data\<rparr>, None))"

definition onSimulatePlay ::
  "string option \<Rightarrow> SimSummary fetch_outcome \<Rightarrow> builder_state
     \<Rightarrow> builder_state \<times> request list" where
  "onSimulatePlay env outcome s =
     (case onSimulatePlay_start env s of
        (s1, None) \<Rightarrow> (s1, [])
      | (s1, Some r) \<Rightarrow> (onSimulatePlay_finish outcome s1, [r]))"

definition onSimulateDrive_start ::
  "string option \<Rightarrow> builder_state \<Rightarrow> builder_state \<times> request option" where
  "onSimulateDrive_start env s =
     (if \<not> truthy_opt (opt_member (result s) ''spec'') then (s, None)
      else
        (s\<lparr>loading := True, warning := None, drive := None\<rparr>,
         Some \<lparr>url = API env @ ''/simulate-drive'', http_method = ''POST'',
               headers = [(''Content-Type'', ''application/json'')],
               body = Some (JSON_stringify
                        [(''spec'', member (result s) ''spec''),
                         (''n'', Some (JNum 1)),
                         (''seed'', seed_field (seed s))]),
               cache = None\<rparr>))"

definition onSimulateDrive_finish ::
  "DriveSummary fetch_outcome \<Rightarrow> builder_state \<Rightarrow> builder_state" where
  "onSimulateDrive_finish outcome s =
     catch_finally ''Drive sim failed''
       (case await_json outcome of
          Inl m \<Rightarrow> (s, Some m)
        | Inr data \<Rightarrow> (s\<lparr>drive := Some data\<rparr>, None))"

definition onSimulateDrive ::
  "string option \<Rightarrow> DriveSummary fetch_outcome \<Rightarrow> builder_state
     \<Rightarrow> builder_state \<times> request list" where
  "onSimulateDrive env outcome s =
     (case onSimulateDrive_start env s of
        (s1, None) \<Rightarrow> (s1, [])
      | (s1, Some r) \<Rightarrow> (onSimulateDrive_finish outcome s1, [r]))"

subsection \<open>The health page\<close>

text \<open>\<^verbatim>\<open>const base = process.env.NEXT_PUBLIC_API_BASE!\<close>: the assertion checks nothing, and
  the template literal writes an unset value as \<^verbatim>\<open>undefined\<close>.\<close>

definition HealthPage_request :: "string option \<Rightarrow> request" where
  "HealthPage_request env =
     \<lparr>url = (case env of None \<Rightarrow> ''undefined'' | Some base \<Rightarrow> base) @ ''/health'',
      http_method = ''GET'', headers = [], body = None, cache = Some ''no-store''\<rparr>"


subsection \<open>The builder page as a machine\<close>

text \<open>
  What can happen to the builder page: an input changes, one of the three actions is
  invoked and runs up to its awaited fetch, or an awaited fetch settles and the rest of
  its handler runs on the state of that moment. A run is any sequence of these, so it
  covers every interleaving of user input with outstanding requests.
\<close>

datatype event =
    Change change
  | Submit
  | ClickSimulatePlay
  | ClickSimulateDrive
  | ParseSettled "json fetch_outcome"
  | PlaySettled "SimSummary fetch_outcome"
  | DriveSettled "DriveSummary fetch_outcome"

fun sent :: "request option \<Rightarrow> request list" where
  "sent None = []"
| "sent (Some r) = [r]"

fun step ::
  "string option \<Rightarrow> engine \<Rightarrow> event \<Rightarrow> builder_state \<Rightarrow> builder_state \<times> request list" where
  "step env eng (Change c) s = (onChange eng c s, [])"
| "step env eng Submit s = (case onParse_start env s of (s1, r) \<Rightarrow> (s1, [r]))"
| "step env eng ClickSimulatePlay s =
     (case onSimulatePlay_start env s of (s1, r) \<Rightarrow> (s1, sent r))"
| "step env eng ClickSimulateDrive s =
     (case onSimulateDrive_start env s of (s1, r) \<Rightarrow> (s1, sent r))"
| "step env eng (ParseSettled outcome) s = (parse_finish eng outcome s, [])"
| "step env eng (PlaySettled outcome) s = (onSimulatePlay_finish outcome s, [])"
| "step env eng (DriveSettled outcome) s = (onSimulateDrive_finish outcome s, [])"

fun run ::
  "string option \<Rightarrow> engine \<Rightarrow> event list \<Rightarrow> builder_state \<Rightarrow> builder_state \<times> request list" where
  "run env eng [] s = (s, [])"
| "run env eng (ev # evs) s =
     (case step env eng ev s of
        (s1, rs) \<Rightarrow> (case run env eng evs s1 of (s2, rs') \<Rightarrow> (s2, rs @ rs')))"

text \<open>The plain builder page, in the same way.\<close>

datatype form_event =
    FormChanged form_change
  | FormSubmit
  | FormSettled "json fetch_outcome"

fun form_step ::
  "string option \<Rightarrow> engine \<Rightarrow> form_event \<Rightarrow> form_state \<Rightarrow> form_state \<times> request list" where
  "form_step env eng (FormChanged c) s = (onFormChange eng c s, [])"
| "form_step env eng FormSubmit s = (case onSubmit_start env s of (s1, r) \<Rightarrow> (s1, [r]))"
| "form_step env eng (FormSettled outcome) s = (parse_finish eng outcome s, [])"

fun form_run ::
  "string option \<Rightarrow> engine \<Rightarrow> form_event list \<Rightarrow> form_state \<Rightarrow> form_state \<times> request list" where
  "form_run env eng [] s = (s, [])"
| "form_run env eng (ev # evs) s =
     (case form_step env eng ev s of
        (s1, rs) \<Rightarrow> (case form_run env eng evs s1 of (s2, rs') \<Rightarrow> (s2, rs @ rs')))"

text \<open>An operation fails with a network error or with a status outside 200 to 299.\<close>

fun failed :: "'a fetch_outcome \<Rightarrow> bool" where
  "failed (Rejected m) = True"
| "failed (Responded status b) = (\<not> ok status)"

subsection \<open>An engine to evaluate with\<close>

text \<open>
  The theorems below hold for every engine. To evaluate the model on ASCII text and
  whole numbers there is this one: it upper-cases the letters a to z, writes a whole
  number below \<open>10\<^sup>2\<^sup>1\<close> in full as JavaScript does (of any other number only the
  whole part, which JavaScript does not), and words its errors as V8 does.
\<close>

definition ascii_toUpperCase :: "string \<Rightarrow> string" where
  "ascii_toUpperCase =
     map (\<lambda>c. case map_of (zip ''abcdefghijklmnopqrstuvwxyz'' ''ABCDEFGHIJKLMNOPQRSTUVWXYZ'') c of
                 None \<Rightarrow> c | Some u \<Rightarrow> u)"

definition whole_number_text :: "rat \<Rightarrow> string" where
  "whole_number_text q = (if q < 0 then ''-'' else []) @ decimal (nat \<lfloor>\<bar>q\<bar>\<rfloor>)"

definition ascii_engine :: engine where
  "ascii_engine =
     \<lparr>number_to_string = whole_number_text,
      toUpperCase = ascii_toUpperCase,
      null_property_message = ''Cannot read properties of null (reading 'warnings')'',
      not_a_function_message = ''data.warnings.join is not a function''\<rparr>"


section \<open>Rendering the simulation summary\<close>

subsection \<open>Arithmetic on doubles\<close>

text \<open>
  A finite double is the rational it denotes. The product of two doubles is the exact
  product rounded to the nearest double, ties to the even significand (IEEE 754
  binary64: 53 significant bits, least exponent \<open>-1022\<close>), or an infinity when the
  rounded magnitude reaches \<open>2\<^sup>1\<^sup>0\<^sup>2\<^sup>4\<close>.
\<close>

fun bit_length :: "nat \<Rightarrow> nat" where
  "bit_length k = (if k = 0 then 0 else Suc (bit_length (k div 2)))"

declare bit_length.simps [simp del]

text \<open>The integer \<open>e\<close> with \<open>2\<^sup>e \<le> q < 2\<^sup>e\<^sup>+\<^sup>1\<close>, for positive \<open>q\<close>.\<close>

definition floor_log2 :: "rat \<Rightarrow> int" where
  "floor_log2 q =
     (if 1 \<le> q then int (bit_length (nat \<lfloor>q\<rfloor>)) - 1
      else - int (bit_length (nat (\<lceil>1 / q\<rceil> - 1))))"

definition pow2 :: "int \<Rightarrow> rat" where
  "pow2 e = (if 0 \<le> e then 2 ^ nat e else 1 / 2 ^ nat (- e))"

definition round_half_even :: "rat \<Rightarrow> int" where
  "round_half_even q =
     (let f = \<lfloor>q\<rfloor>; d = q - of_int f in
      if d < 1 / 2 then f else if 1 / 2 < d then f + 1 else if even f then f else f + 1)"

definition nearest_double :: "rat \<Rightarrow> rat" where
  "nearest_double q =
     (if q = 0 then 0
      else let a = \<bar>q\<bar>;
               e = max (floor_log2 a) (- 1022);
               ulp = pow2 (e - 52)
           in sgn q * (of_int (round_half_even (a / ulp)) * ulp))"

datatype number = Finite rat | PosInfinity | NegInfinity

text \<open>\<^verbatim>\<open>x * y\<close> on finite doubles.\<close>

definition multiply :: "rat \<Rightarrow> rat \<Rightarrow> number" where
  "multiply x y =
     (let r = nearest_double (x * y) in
      if 2 ^ 1024 \<le> \<bar>r\<bar> then (if 0 < r then PosInfinity else NegInfinity) else Finite r)"

subsection \<open>\<^verbatim>\<open>Number.prototype.toFixed\<close>\<close>

datatype js_error = RangeError

text \<open>The digits of \<open>k\<close> with a point before the last \<open>f\<close> of them, padded with zeros on
  the left to \<open>f + 1\<close> digits.\<close>

definition fixed_digits :: "nat \<Rightarrow> nat \<Rightarrow> string" where
  "fixed_digits k f =
     (let m = decimal k in
      if f = 0 then m
      else let m' = replicate (f + 1 - length m) (CHR ''0'') @ m;
               j = length m' - f
           in take j m' @ ''.'' @ drop j m')"

text \<open>
  \<^verbatim>\<open>x.toFixed(f)\<close>: a \<^verbatim>\<open>RangeError\<close> beyond 100 digits; the name of an infinity; the
  number's own text from \<open>10\<^sup>2\<^sup>1\<close> on; otherwise the integer \<open>k\<close> with \<open>k / 10\<^sup>f\<close> nearest
  to the magnitude, the larger one of two, written by \<open>fixed_digits\<close> after the sign.
\<close>

definition toFixed :: "engine \<Rightarrow> number \<Rightarrow> nat \<Rightarrow> js_error + string" where
  "toFixed eng x f =
     (if 100 < f then Inl RangeError
      else case x of
        PosInfinity \<Rightarrow> Inr ''Infinity''
      | NegInfinity \<Rightarrow> Inr ''-Infinity''
      | Finite q \<Rightarrow>
          let s = (if q < 0 then ''-'' else []); a = \<bar>q\<bar> in
          if 10 ^ 21 \<le> a then Inr (s @ number_to_string eng a)
          else Inr (s @ fixed_digits (nat \<lfloor>a * 10 ^ f + 1 / 2\<rfloor>) f))"

subsection \<open>The rate cells\<close>

text \<open>An expression in braces followed by literal text; what the expression throws
  is thrown by the rendering.\<close>

fun followed_by :: "js_error + string \<Rightarrow> string \<Rightarrow> js_error + string" where
  "followed_by (Inl e) t = Inl e"
| "followed_by (Inr m) t = Inr (m @ t)"

text \<open>\<^verbatim>\<open>{(sim.td_rate * 100).toFixed(1)}%\<close> and its two siblings.\<close>

definition td_rate_text :: "engine \<Rightarrow> SimSummary \<Rightarrow> js_error + string" where
  "td_rate_text eng sm = followed_by (toFixed eng (multiply (td_rate sm) 100) 1) ''%''"

definition fg_rate_text :: "engine \<Rightarrow> SimSummary \<Rightarrow> js_error + string" where
  "fg_rate_text eng sm = followed_by (toFixed eng (multiply (fg_rate sm) 100) 1) ''%''"

definition turnover_rate_text :: "engine \<Rightarrow> SimSummary \<Rightarrow> js_error + string" where
  "turnover_rate_text eng sm =
     followed_by (toFixed eng (multiply (turnover_rate sm) 100) 1) ''%''"

section \<open>Predicates used in the statements\<close>

text \<open>Following the specification's words, "rounds to one decimal place": the text of
  a non-negative \<open>p\<close> rounded to the nearest tenth, a half upwards, as whole part, point
  and one digit.\<close>

definition rounded_to_one_decimal :: "rat \<Rightarrow> string" where
  "rounded_to_one_decimal p =
     (let k = nat \<lfloor>p * 10 + 1 / 2\<rfloor> in decimal (k div 10) @ ''.'' @ decimal (k mod 10))"

text \<open>A request to the parse endpoint carries team codes that are upper-cased strings.\<close>

definition carries_upper_codes :: "engine \<Rightarrow> string option \<Rightarrow> request \<Rightarrow> bool" where
  "carries_upper_codes eng env r =
     (url r = API env @ ''/parse-freeform'' \<longrightarrow>
        (\<exists>t a b. body r = Some (JObj [(''text'', JStr t),
                     (''offense'', JStr (toUpperCase eng a)),
                     (''defense'', JStr (toUpperCase eng b))])))"

definition upper_codes :: "engine \<Rightarrow> 'a form_state_scheme \<Rightarrow> bool" where
  "upper_codes eng s =
     (offense s \<in> range (toUpperCase eng) \<and> defense s \<in> range (toUpperCase eng))"

text \<open>States and values to evaluate at: the builder page after a parse that succeeded,
  a simulation summary, and one whose three rates are the double written \<^verbatim>\<open>0.231\<close>.\<close>

definition parsed_page :: builder_state where
  "parsed_page =
     fst (onParse None ascii_engine
            (Responded 200 (Inr (JObj [(''spec'', JObj [(''down'', JNum 3)]),
                                       (''warnings'', JArr [])])))
            (init_builder 7))"

definition example_summary :: SimSummary where
  "example_summary =
     \<lparr>yards_mean = 5, yards_p10 = 0, yards_p50 = 4, yards_p90 = 12,
      td_rate = 1 / 4, fg_rate = 1 / 8, turnover_rate = 1 / 16,
      assumptions = [''neutral weather''], seed = 7\<rparr>"

definition summary_0231 :: SimSummary where
  "summary_0231 =
     \<lparr>yards_mean = 5, yards_p10 = 0, yards_p50 = 4, yards_p90 = 12,
      td_rate = nearest_double (231 / 1000), fg_rate = nearest_double (231 / 1000),
      turnover_rate = nearest_double (231 / 1000), assumptions = [], seed = 7\<rparr>"


section \<open>Properties\<close>

subsection \<open>Auxiliary facts\<close>

lemmas start_defs =
  onParse_start_def onSubmit_start_def onSimulatePlay_start_def onSimulateDrive_start_def

lemmas op_defs = onParse_def onSubmit_def onSimulatePlay_def onSimulateDrive_def

lemmas finish_defs =
  parse_finish_def onSimulatePlay_finish_def onSimulateDrive_finish_def catch_finally_def

lemma parsed_page_eq:
  "parsed_page =
     \<lparr>text' = ''3rd & 8 on DAL 42, 2:05 Q4, down 3, deep middle pass, 11 personnel'',
      offense = ''DAL'', defense = ''PHI'',
      result = JObj [(''spec'', JObj [(''down'', JNum 3)]), (''warnings'', JArr [])],
      warning = None, loading = False, n = 1000, seed = Some 7, sim = None,
      drive = None\<rparr>"
  by (simp add: parsed_page_def onParse_def onParse_start_def parse_finish_def
      await_json_def ok_def store_parsed_def catch_finally_def init_builder_def)

lemma parsed_page_spec:
  "opt_member (result parsed_page) ''spec'' = Some (JObj [(''down'', JNum 3)])"
  by (simp add: parsed_page_eq opt_member_def)

lemma failed_await_json: "failed outcome \<Longrightarrow> \<exists>m. await_json outcome = Inl m"
  by (cases outcome) (simp_all add: await_json_def)

lemma loading_catch_finally: "\<not> loading (catch_finally dflt st)"
  by (cases st) (simp add: catch_finally_def split: option.splits)

lemma loading_onChange: "loading (onChange eng c s) = loading s"
proof (cases c)
  case (Form fc)
  then show ?thesis
    by (cases fc) (simp_all add: setText_def onChangeOffense_def onChangeDefense_def)
qed (simp_all add: onChangeN_def onChangeSeed_def)

lemma loading_onFormChange: "loading (onFormChange eng fc s) = loading s"
  by (cases fc) (simp_all add: setText_def onChangeOffense_def onChangeDefense_def)

lemma loading_fold_onChange: "loading (fold (onChange eng) cs s) = loading s"
  by (induction cs arbitrary: s) (simp_all add: loading_onChange)

lemma loading_fold_onFormChange: "loading (fold (onFormChange eng) fcs s) = loading s"
  by (induction fcs arbitrary: s) (simp_all add: loading_onFormChange)

subsection \<open>Guarded simulation\<close>

text \<open>
  C1. When the stored result is \<^verbatim>\<open>null\<close> or has no \<^verbatim>\<open>spec\<close> member, the single-play
  and the drive simulation actions do nothing: the state they leave is the state they
  were invoked in, and no request is sent, whatever the network would have answered.
\<close>

theorem simulate_without_spec_is_noop:
  assumes "opt_member (result s) ''spec'' = None"
  shows "onSimulatePlay_start env s = (s, None) \<and> onSimulatePlay env o1 s = (s, []) \<and>
         onSimulateDrive_start env s = (s, None) \<and> onSimulateDrive env o2 s = (s, [])"
  using assms by (simp add: op_defs start_defs)

theorem simulate_without_spec_is_noop_witness:
  "opt_member (result (init_builder 7)) ''spec'' = None \<and>
   onSimulatePlay None (Responded 200 (Inr example_summary)) (init_builder 7)
     = (init_builder 7, []) \<and>
   onSimulateDrive None (Rejected ''Failed to fetch'') (init_builder 7)
     = (init_builder 7, [])"
proof -
  have h: "opt_member (result (init_builder 7)) ''spec'' = None"
    by (simp add: init_builder_def opt_member_def)
  show ?thesis
    using h simulate_without_spec_is_noop [OF h, of None "Responded 200 (Inr example_summary)"
        "Rejected ''Failed to fetch''"]
    by simp
qed

text \<open>
  C2. When a parse result with a truthy \<^verbatim>\<open>spec\<close> is stored, simulate-play sends one
  request, to \<^verbatim>\<open>/simulate\<close>, whose body has that \<^verbatim>\<open>spec\<close> unchanged and the current
  sample count as \<^verbatim>\<open>n\<close>; simulate-drive sends one request, to \<^verbatim>\<open>/simulate-drive\<close>, whose
  body has that \<^verbatim>\<open>spec\<close> unchanged and \<^verbatim>\<open>n\<close> equal to 1.
\<close>

theorem simulate_body_carries_spec:
  assumes "truthy_opt (opt_member (result s) ''spec'')"
  shows "(\<exists>r b. snd (onSimulatePlay env o1 s) = [r] \<and> url r = API env @ ''/simulate'' \<and>
            body r = Some b \<and> member b ''spec'' = member (result s) ''spec'' \<and>
            member b ''n'' = Some (JNum (n s))) \<and>
         (\<exists>r b. snd (onSimulateDrive env o2 s) = [r] \<and>
            url r = API env @ ''/simulate-drive'' \<and>
            body r = Some b \<and> member b ''spec'' = member (result s) ''spec'' \<and>
            member b ''n'' = Some (JNum 1))"
  using assms
  by (cases "member (result s) ''spec''"; cases "seed s";
      simp add: op_defs start_defs JSON_stringify_def seed_field_def opt_member_def
           split: if_splits)

theorem simulate_body_carries_spec_witness:
  "truthy_opt (opt_member (result parsed_page) ''spec'') \<and>
   (\<exists>r b. snd (onSimulatePlay None (Rejected []) parsed_page) = [r] \<and>
      url r = ''http://localhost:8000/simulate'' \<and> body r = Some b \<and>
      member b ''spec'' = Some (JObj [(''down'', JNum 3)]) \<and>
      member b ''n'' = Some (JNum 1000)) \<and>
   (\<exists>r b. snd (onSimulateDrive None (Rejected []) parsed_page) = [r] \<and>
      url r = ''http://localhost:8000/simulate-drive'' \<and> body r = Some b \<and>
      member b ''spec'' = Some (JObj [(''down'', JNum 3)]) \<and>
      member b ''n'' = Some (JNum 1))"
proof -
  have h: "truthy_opt (opt_member (result parsed_page) ''spec'')"
    by (simp add: parsed_page_spec)
  have m: "member (result parsed_page) ''spec'' = Some (JObj [(''down'', JNum 3)])"
    by (simp add: parsed_page_eq)
  have k: "n parsed_page = 1000"
    by (simp add: parsed_page_eq)
  show ?thesis
    using h simulate_body_carries_spec [OF h, of None "Rejected []" "Rejected []"]
    by (simp add: m k API_def)
qed

text \<open>
  C9. In the body of a simulate-play or simulate-drive request the \<^verbatim>\<open>seed\<close> member is
  absent when the seed state is the empty string, and is the seed's number otherwise:
  the body is exactly \<^verbatim>\<open>spec\<close>, \<^verbatim>\<open>n\<close> and, only then, \<^verbatim>\<open>seed\<close>.
\<close>

theorem seed_member_of_body:
  assumes "truthy_opt (opt_member (result s) ''spec'')"
  shows "\<exists>rp rd v.
           member (result s) ''spec'' = Some v \<and>
           snd (onSimulatePlay env o1 s) = [rp] \<and>
           snd (onSimulateDrive env o2 s) = [rd] \<and>
           (seed s = None \<longrightarrow>
              body rp = Some (JObj [(''spec'', v), (''n'', JNum (n s))]) \<and>
              body rd = Some (JObj [(''spec'', v), (''n'', JNum 1)])) \<and>
           (\<forall>x. seed s = Some x \<longrightarrow>
              body rp = Some (JObj [(''spec'', v), (''n'', JNum (n s)), (''seed'', JNum x)]) \<and>
              body rd = Some (JObj [(''spec'', v), (''n'', JNum 1), (''seed'', JNum x)]))"
  using assms
  by (cases "member (result s) ''spec''"; cases "seed s";
      simp add: op_defs start_defs JSON_stringify_def seed_field_def opt_member_def
           split: if_splits)

theorem seed_member_of_body_witness:
  "truthy_opt (opt_member (result parsed_page) ''spec'') \<and>
   truthy_opt (opt_member (result (onChangeSeed None parsed_page)) ''spec'') \<and>
   map body (snd (onSimulatePlay None (Rejected []) parsed_page))
     = [Some (JObj [(''spec'', JObj [(''down'', JNum 3)]), (''n'', JNum 1000),
                    (''seed'', JNum 7)])] \<and>
   map body (snd (onSimulateDrive None (Rejected []) (onChangeSeed None parsed_page)))
     = [Some (JObj [(''spec'', JObj [(''down'', JNum 3)]), (''n'', JNum 1)])]"
proof -
  let ?t = "onChangeSeed None parsed_page"
  have h: "truthy_opt (opt_member (result parsed_page) ''spec'')"
    by (simp add: parsed_page_spec)
  have h': "truthy_opt (opt_member (result ?t) ''spec'')"
    by (simp add: onChangeSeed_def parsed_page_spec)
  have m: "member (result parsed_page) ''spec'' = Some (JObj [(''down'', JNum 3)])"
          "member (result ?t) ''spec'' = Some (JObj [(''down'', JNum 3)])"
          "n parsed_page = 1000" "seed parsed_page = Some 7" "seed ?t = None"
    by (simp_all add: parsed_page_eq onChangeSeed_def)
  show ?thesis
    using h h' seed_member_of_body [OF h, of None "Rejected []" "Rejected []"]
      seed_member_of_body [OF h', of None "Rejected []" "Rejected []"]
    by (auto simp add: m)
qed


subsection \<open>Parsing\<close>

text \<open>
  C6. Submitting the parse form sends exactly one request, whatever the outcome: a
  POST to \<^verbatim>\<open>/parse-freeform\<close> under the API base, with a JSON body that has exactly the
  members \<^verbatim>\<open>text\<close>, \<^verbatim>\<open>offense\<close> and \<^verbatim>\<open>defense\<close> with the values of the state, on both
  builder pages.
\<close>

theorem parse_sends_one_post:
  "snd (onParse env eng outcome s) =
     [\<lparr>url = API env @ ''/parse-freeform'', http_method = ''POST'',
       headers = [(''Content-Type'', ''application/json'')],
       body = Some (JObj [(''text'', JStr (text' s)), (''offense'', JStr (offense s)),
                          (''defense'', JStr (defense s))]),
       cache = Some ''no-store''\<rparr>] \<and>
   snd (onSubmit env eng outcome t) =
     [\<lparr>url = API env @ ''/parse-freeform'', http_method = ''POST'',
       headers = [(''Content-Type'', ''application/json'')],
       body = Some (JObj [(''text'', JStr (text' t)), (''offense'', JStr (offense t)),
                          (''defense'', JStr (defense t))]),
       cache = None\<rparr>]"
  by (simp add: op_defs start_defs parse_body_def JSON_stringify_def)

text \<open>
  C3. When the parse request is answered with a status outside 200 to 299, the warning
  afterwards is \<^verbatim>\<open>HTTP\<close> followed by the decimal status code, and no result is stored:
  the parse result is \<^verbatim>\<open>null\<close> (and so are the simulation and drive summaries of the
  page that has them).
\<close>

theorem parse_http_error_warning:
  assumes "\<not> ok status"
  shows "warning (fst (onParse env eng (Responded status b) s))
           = Some (''HTTP '' @ decimal status) \<and>
         result (fst (onParse env eng (Responded status b) s)) = JNull \<and>
         sim (fst (onParse env eng (Responded status b) s)) = None \<and>
         drive (fst (onParse env eng (Responded status b) s)) = None \<and>
         warning (fst (onSubmit env eng (Responded status b) t))
           = Some (''HTTP '' @ decimal status) \<and>
         result (fst (onSubmit env eng (Responded status b) t)) = JNull"
  using assms
  by (simp add: op_defs start_defs finish_defs await_json_def message_or_def)

theorem parse_http_error_warning_witness:
  "\<not> ok 404 \<and> \<not> ok 500 \<and>
   warning (fst (onParse None ascii_engine (Responded 404 (Inr JNull)) parsed_page))
     = Some ''HTTP 404'' \<and>
   result (fst (onParse None ascii_engine (Responded 404 (Inr JNull)) parsed_page))
     = JNull \<and>
   warning (fst (onSubmit None ascii_engine (Responded 500 (Inl [])) init_form))
     = Some ''HTTP 500'' \<and>
   result (fst (onSubmit None ascii_engine (Responded 500 (Inl [])) init_form)) = JNull"
proof -
  have h: "\<not> ok 404" "\<not> ok 500"
    by (simp_all add: ok_def)
  have d: "decimal 404 = ''404''" "decimal 500 = ''500''"
    by (simp_all add: decimal.simps)
  show ?thesis
    using h
      parse_http_error_warning [OF h(1), of None ascii_engine "Inr JNull" parsed_page]
      parse_http_error_warning [OF h(2), of None ascii_engine "Inl []" _ init_form]
    by (simp add: d)
qed

subsection \<open>The loading flag\<close>

text \<open>
  C7. Each of parse, simulate-play and simulate-drive that sends a request leaves the
  loading flag true when it reaches its awaited fetch; any changes of the inputs while
  the request is outstanding leave the flag as it is; and what runs when the fetch
  settles leaves the flag false on every outcome, from every state.
\<close>

theorem loading_flag_brackets_request:
  "loading (fst (onParse_start env s)) \<and>
   loading (fst (onSubmit_start env t)) \<and>
   (snd (onSimulatePlay_start env s) \<noteq> None \<longrightarrow> loading (fst (onSimulatePlay_start env s))) \<and>
   (snd (onSimulateDrive_start env s) \<noteq> None \<longrightarrow> loading (fst (onSimulateDrive_start env s))) \<and>
   loading (fold (onChange eng) cs s') = loading s' \<and>
   loading (fold (onFormChange eng) fcs t') = loading t' \<and>
   \<not> loading (parse_finish eng po u) \<and>
   \<not> loading (parse_finish eng po w) \<and>
   \<not> loading (onSimulatePlay_finish so u) \<and>
   \<not> loading (onSimulateDrive_finish dro u)"
  by (simp add: start_defs loading_fold_onChange loading_fold_onFormChange parse_finish_def
      onSimulatePlay_finish_def onSimulateDrive_finish_def loading_catch_finally)

theorem loading_flag_brackets_request_witness:
  "snd (onSimulatePlay_start None parsed_page) \<noteq> None \<and>
   snd (onSimulateDrive_start None parsed_page) \<noteq> None \<and>
   \<not> loading parsed_page \<and>
   loading (fst (onSimulatePlay_start None parsed_page)) \<and>
   loading (fst (onSimulateDrive_start None parsed_page)) \<and>
   loading (fold (onChange ascii_engine) [ChangeN (Some 500), Form (ChangeText ''4th & 1'')]
              (fst (onSimulatePlay_start None parsed_page))) \<and>
   \<not> loading (onSimulatePlay_finish (Responded 503 (Inl []))
                 (fold (onChange ascii_engine) [ChangeN (Some 500), Form (ChangeText ''4th & 1'')]
                    (fst (onSimulatePlay_start None parsed_page))))"
proof -
  let ?p = "fst (onSimulatePlay_start None parsed_page)"
  let ?cs = "[ChangeN (Some 500), Form (ChangeText ''4th & 1'')]"
  have h: "snd (onSimulatePlay_start None parsed_page) \<noteq> None"
          "snd (onSimulateDrive_start None parsed_page) \<noteq> None"
    using parsed_page_spec by (simp_all add: start_defs)
  have q: "\<not> loading parsed_page"
    by (simp add: parsed_page_eq)
  show ?thesis
    using h q
      loading_flag_brackets_request [where env = None and s = parsed_page
        and t = init_form and eng = ascii_engine and cs = ?cs
        and s' = ?p and fcs = "[]" and t' = init_form
        and po = "Rejected []" and so = "Responded 503 (Inl [])" and dro = "Rejected []"
        and u = "fold (onChange ascii_engine) ?cs ?p" and w = init_form]
    by blast
qed

subsection \<open>Failures\<close>

text \<open>
  C4, as stated, does not hold: an operation clears the result of its own kind before
  it sends its request, and a parse clears all three. After a parse that fails, a parse
  result stored before is gone; after a simulate-play that fails, a simulation summary
  stored before is gone.
\<close>

theorem failed_operation_clears_results:
  "failed (Rejected ''Failed to fetch'' :: json fetch_outcome) \<and>
   result (fst (onParse None ascii_engine (Rejected ''Failed to fetch'') parsed_page))
     \<noteq> result parsed_page \<and>
   failed (Responded 500 (Inl []) :: SimSummary fetch_outcome) \<and>
   sim (fst (onSimulatePlay None (Responded 500 (Inl []))
               (parsed_page\<lparr>sim := Some example_summary\<rparr>)))
     \<noteq> sim (parsed_page\<lparr>sim := Some example_summary\<rparr>)"
  by (simp add: parsed_page_eq op_defs start_defs finish_defs await_json_def ok_def
      opt_member_def)

text \<open>
  C4, amended. An operation that fails with a network error or a status outside 200 to
  299 ends with the loading flag false and with the results of the other kinds as they
  were: a failed simulate-play leaves the parse result and the drive summary unchanged,
  a failed simulate-drive leaves the parse result and the simulation summary unchanged.
  The result of the operation's own kind, cleared when the operation started, is
  \<^verbatim>\<open>null\<close>; a parse clears all three when it starts, so all three are \<^verbatim>\<open>null\<close> after
  a parse that fails.
\<close>

theorem failed_operation_recovers:
  assumes "failed po" and "failed so" and "failed dro"
  shows "(\<not> loading (fst (onParse env eng po s)) \<and>
          result (fst (onParse env eng po s)) = JNull \<and>
          sim (fst (onParse env eng po s)) = None \<and>
          drive (fst (onParse env eng po s)) = None) \<and>
         (\<not> loading (fst (onSubmit env eng po t)) \<and>
          result (fst (onSubmit env eng po t)) = JNull) \<and>
         (snd (onSimulatePlay env so s) \<noteq> [] \<longrightarrow>
          \<not> loading (fst (onSimulatePlay env so s)) \<and>
          result (fst (onSimulatePlay env so s)) = result s \<and>
          sim (fst (onSimulatePlay env so s)) = None \<and>
          drive (fst (onSimulatePlay env so s)) = drive s) \<and>
         (snd (onSimulateDrive env dro s) \<noteq> [] \<longrightarrow>
          \<not> loading (fst (onSimulateDrive env dro s)) \<and>
          result (fst (onSimulateDrive env dro s)) = result s \<and>
          sim (fst (onSimulateDrive env dro s)) = sim s \<and>
          drive (fst (onSimulateDrive env dro s)) = None)"
  using failed_await_json [OF assms(1)] failed_await_json [OF assms(2)]
    failed_await_json [OF assms(3)]
  by (auto simp add: op_defs start_defs finish_defs split: if_splits)

theorem failed_operation_recovers_witness:
  "failed (Rejected ''Failed to fetch'' :: json fetch_outcome) \<and>
   failed (Responded 500 (Inl []) :: SimSummary fetch_outcome) \<and>
   failed (Responded 404 (Inl []) :: DriveSummary fetch_outcome) \<and>
   snd (onSimulatePlay None (Responded 500 (Inl []))
          (parsed_page\<lparr>sim := Some example_summary\<rparr>)) \<noteq> [] \<and>
   snd (onSimulateDrive None (Responded 404 (Inl []))
          (parsed_page\<lparr>sim := Some example_summary\<rparr>)) \<noteq> [] \<and>
   result (fst (onSimulatePlay None (Responded 500 (Inl []))
                  (parsed_page\<lparr>sim := Some example_summary\<rparr>)))
     = JObj [(''spec'', JObj [(''down'', JNum 3)]), (''warnings'', JArr [])] \<and>
   sim (fst (onSimulateDrive None (Responded 404 (Inl []))
               (parsed_page\<lparr>sim := Some example_summary\<rparr>)))
     = Some example_summary \<and>
   \<not> loading (fst (onSimulateDrive None (Responded 404 (Inl []))
                     (parsed_page\<lparr>sim := Some example_summary\<rparr>)))"
proof -
  let ?s = "parsed_page\<lparr>sim := Some example_summary\<rparr>"
  have f: "failed (Rejected ''Failed to fetch'' :: json fetch_outcome)"
          "failed (Responded 500 (Inl []) :: SimSummary fetch_outcome)"
          "failed (Responded 404 (Inl []) :: DriveSummary fetch_outcome)"
    by (simp_all add: ok_def)
  have g: "snd (onSimulatePlay None (Responded 500 (Inl [])) ?s) \<noteq> []"
          "snd (onSimulateDrive None (Responded 404 (Inl [])) ?s) \<noteq> []"
    using parsed_page_spec by (simp_all add: op_defs start_defs)
  have r: "result ?s = JObj [(''spec'', JObj [(''down'', JNum 3)]), (''warnings'', JArr [])]"
    by (simp add: parsed_page_eq)
  show ?thesis
    using f g failed_operation_recovers [OF f, of None ascii_engine ?s init_form]
    by (simp add: r)
qed

subsection \<open>The API base\<close>

text \<open>
  C5. The builder pages take the API base from the environment and fall back to
  \<^verbatim>\<open>http://localhost:8000\<close>. The health page does not fall back: with the variable
  unset it requests \<^verbatim>\<open>undefined/health\<close>.
\<close>

theorem health_page_has_no_default:
  "url (snd (onParse_start None s)) = ''http://localhost:8000/parse-freeform'' \<and>
   url (snd (onSubmit_start None t)) = ''http://localhost:8000/parse-freeform'' \<and>
   url (snd (onParse_start (Some ''https://api.example'') s))
     = ''https://api.example/parse-freeform'' \<and>
   url (HealthPage_request (Some ''https://api.example'')) = ''https://api.example/health'' \<and>
   url (HealthPage_request None) = ''undefined/health''"
  by (simp add: start_defs API_def HealthPage_request_def)


subsection \<open>Team codes\<close>

lemma codes_onFormChange: "upper_codes eng s \<Longrightarrow> upper_codes eng (onFormChange eng fc s)"
  by (cases fc) (simp_all add: upper_codes_def setText_def onChangeOffense_def onChangeDefense_def)

lemma codes_catch_finally:
  "upper_codes eng (fst st) \<Longrightarrow> upper_codes eng (catch_finally dflt st)"
  by (cases st) (simp add: catch_finally_def upper_codes_def split: option.splits)

lemma codes_parse_finish: "upper_codes eng s \<Longrightarrow> upper_codes eng (parse_finish eng outcome s)"
  unfolding parse_finish_def
  by (rule codes_catch_finally)
     (auto simp add: store_parsed_def upper_codes_def Let_def
           split: sum.splits option.splits json.splits)

lemma codes_step:
  assumes "upper_codes eng s"
  shows "upper_codes eng (fst (step env eng ev s)) \<and>
         (\<forall>r \<in> set (snd (step env eng ev s)). carries_upper_codes eng env r)"
proof (cases ev)
  case (Change c)
  show ?thesis
  proof (cases c)
    case (Form fc)
    with Change assms show ?thesis by (simp add: codes_onFormChange)
  next
    case (ChangeN v)
    with Change assms show ?thesis by (simp add: upper_codes_def onChangeN_def)
  next
    case (ChangeSeed v)
    with Change assms show ?thesis by (simp add: upper_codes_def onChangeSeed_def)
  qed
next
  case Submit
  with assms show ?thesis
    by (auto simp add: onParse_start_def upper_codes_def carries_upper_codes_def
        parse_body_def JSON_stringify_def)
next
  case ClickSimulatePlay
  with assms show ?thesis
    by (auto simp add: onSimulatePlay_start_def upper_codes_def carries_upper_codes_def)
next
  case ClickSimulateDrive
  with assms show ?thesis
    by (auto simp add: onSimulateDrive_start_def upper_codes_def carries_upper_codes_def)
next
  case (ParseSettled outcome)
  with assms show ?thesis by (simp add: codes_parse_finish)
next
  case (PlaySettled outcome)
  have "upper_codes eng (onSimulatePlay_finish outcome s)"
    unfolding onSimulatePlay_finish_def
    by (rule codes_catch_finally) (use assms in \<open>auto simp add: upper_codes_def split: sum.splits\<close>)
  with PlaySettled show ?thesis by simp
next
  case (DriveSettled outcome)
  have "upper_codes eng (onSimulateDrive_finish outcome s)"
    unfolding onSimulateDrive_finish_def
    by (rule codes_catch_finally) (use assms in \<open>auto simp add: upper_codes_def split: sum.splits\<close>)
  with DriveSettled show ?thesis by simp
qed

lemma codes_run:
  "upper_codes eng s \<Longrightarrow>
   upper_codes eng (fst (run env eng evs s)) \<and>
   (\<forall>r \<in> set (snd (run env eng evs s)). carries_upper_codes eng env r)"
proof (induction evs arbitrary: s)
  case Nil
  then show ?case by simp
next
  case (Cons ev evs)
  obtain s1 rs where st: "step env eng ev s = (s1, rs)"
    by (cases "step env eng ev s")
  obtain s2 rs' where rn: "run env eng evs s1 = (s2, rs')"
    by (cases "run env eng evs s1")
  from codes_step [OF Cons.prems, of env ev] st
  have a: "upper_codes eng s1" and b: "\<forall>r \<in> set rs. carries_upper_codes eng env r"
    by simp_all
  from Cons.IH [OF a] rn
  have c: "upper_codes eng s2" and d: "\<forall>r \<in> set rs'. carries_upper_codes eng env r"
    by simp_all
  show ?case using st rn b c d by auto
qed

lemma codes_form_step:
  assumes "upper_codes eng s"
  shows "upper_codes eng (fst (form_step env eng ev s)) \<and>
         (\<forall>r \<in> set (snd (form_step env eng ev s)). carries_upper_codes eng env r)"
proof (cases ev)
  case (FormChanged fc)
  with assms show ?thesis by (simp add: codes_onFormChange)
next
  case FormSubmit
  with assms show ?thesis
    by (auto simp add: onSubmit_start_def upper_codes_def carries_upper_codes_def
        parse_body_def JSON_stringify_def)
next
  case (FormSettled outcome)
  with assms show ?thesis by (simp add: codes_parse_finish)
qed

lemma codes_form_run:
  "upper_codes eng s \<Longrightarrow>
   upper_codes eng (fst (form_run env eng evs s)) \<and>
   (\<forall>r \<in> set (snd (form_run env eng evs s)). carries_upper_codes eng env r)"
proof (induction evs arbitrary: s)
  case Nil
  then show ?case by simp
next
  case (Cons ev evs)
  obtain s1 rs where st: "form_step env eng ev s = (s1, rs)"
    by (cases "form_step env eng ev s")
  obtain s2 rs' where rn: "form_run env eng evs s1 = (s2, rs')"
    by (cases "form_run env eng evs s1")
  from codes_form_step [OF Cons.prems, of env ev] st
  have a: "upper_codes eng s1" and b: "\<forall>r \<in> set rs. carries_upper_codes eng env r"
    by simp_all
  from Cons.IH [OF a] rn
  have c: "upper_codes eng s2" and d: "\<forall>r \<in> set rs'. carries_upper_codes eng env r"
    by simp_all
  show ?case using st rn b c d by auto
qed

lemma codes_init:
  assumes "toUpperCase eng ''DAL'' = ''DAL''" and "toUpperCase eng ''PHI'' = ''PHI''"
  shows "upper_codes eng (init_builder k)" and "upper_codes eng init_form"
proof -
  have "''DAL'' \<in> range (toUpperCase eng)" and "''PHI'' \<in> range (toUpperCase eng)"
    using assms by (metis rangeI)+
  then show "upper_codes eng (init_builder k)" and "upper_codes eng init_form"
    by (simp_all add: upper_codes_def init_builder_def init_form_def)
qed

lemma ascii_upper_examples:
  "toUpperCase ascii_engine ''DAL'' = ''DAL''"
  "toUpperCase ascii_engine ''PHI'' = ''PHI''"
  "toUpperCase ascii_engine ''kc'' = ''KC''"
  "toUpperCase ascii_engine ''Buf'' = ''BUF''"
  by (simp_all add: ascii_engine_def ascii_toUpperCase_def)

text \<open>
  C10. A change of the offense or the defense input stores the upper-cased value. The
  initial codes \<^verbatim>\<open>DAL\<close> and \<^verbatim>\<open>PHI\<close> are their own upper-casing, so in every run of either
  builder page, with input changes, submissions and settling fetches in any order, each
  request to \<^verbatim>\<open>/parse-freeform\<close> has a body of \<^verbatim>\<open>text\<close>, \<^verbatim>\<open>offense\<close> and \<^verbatim>\<open>defense\<close> whose
  two codes are upper-cased strings.
\<close>

theorem team_codes_uppercase:
  assumes "toUpperCase eng ''DAL'' = ''DAL''" and "toUpperCase eng ''PHI'' = ''PHI''"
  shows "offense (onChangeOffense eng v s) = toUpperCase eng v \<and>
         defense (onChangeDefense eng v s) = toUpperCase eng v \<and>
         (\<forall>r \<in> set (snd (run env eng evs (init_builder k))). carries_upper_codes eng env r) \<and>
         (\<forall>r \<in> set (snd (form_run env eng fevs init_form)). carries_upper_codes eng env r)"
  using codes_run [OF codes_init(1) [OF assms]] codes_form_run [OF codes_init(2) [OF assms]]
  by (simp add: onChangeOffense_def onChangeDefense_def)

theorem team_codes_uppercase_witness:
  "toUpperCase ascii_engine ''DAL'' = ''DAL'' \<and> toUpperCase ascii_engine ''PHI'' = ''PHI'' \<and>
   snd (run None ascii_engine
          [Change (Form (ChangeOffense ''kc'')), Submit,
           Change (Form (ChangeDefense ''Buf'')), ParseSettled (Rejected [])]
          (init_builder 7))
     = [\<lparr>url = ''http://localhost:8000/parse-freeform'', http_method = ''POST'',
         headers = [(''Content-Type'', ''application/json'')],
         body = Some (JObj
           [(''text'', JStr ''3rd & 8 on DAL 42, 2:05 Q4, down 3, deep middle pass, 11 personnel''),
            (''offense'', JStr ''KC''), (''defense'', JStr ''PHI'')]),
         cache = Some ''no-store''\<rparr>] \<and>
   carries_upper_codes ascii_engine None
     (hd (snd (run None ascii_engine
          [Change (Form (ChangeOffense ''kc'')), Submit,
           Change (Form (ChangeDefense ''Buf'')), ParseSettled (Rejected [])]
          (init_builder 7)))) \<and>
   defense (fst (run None ascii_engine
          [Change (Form (ChangeOffense ''kc'')), Submit,
           Change (Form (ChangeDefense ''Buf'')), ParseSettled (Rejected [])]
          (init_builder 7))) = ''BUF''"
proof -
  let ?evs = "[Change (Form (ChangeOffense ''kc'')), Submit,
               Change (Form (ChangeDefense ''Buf'')), ParseSettled (Rejected [])]"
  have e: "run None ascii_engine ?evs (init_builder 7)
     = (\<lparr>text' = ''3rd & 8 on DAL 42, 2:05 Q4, down 3, deep middle pass, 11 personnel'',
         offense = ''KC'', defense = ''BUF'', result = JNull,
         warning = Some ''Request failed'', loading = False, n = 1000, seed = Some 7,
         sim = None, drive = None\<rparr>,
        [\<lparr>url = ''http://localhost:8000/parse-freeform'', http_method = ''POST'',
          headers = [(''Content-Type'', ''application/json'')],
          body = Some (JObj
            [(''text'', JStr ''3rd & 8 on DAL 42, 2:05 Q4, down 3, deep middle pass, 11 personnel''),
             (''offense'', JStr ''KC''), (''defense'', JStr ''PHI'')]),
          cache = Some ''no-store''\<rparr>])"
    by (simp add: init_builder_def setText_def onChangeOffense_def onChangeDefense_def
        ascii_upper_examples onParse_start_def parse_body_def JSON_stringify_def API_def
        parse_finish_def await_json_def catch_finally_def message_or_def)
  have t: "\<forall>r \<in> set (snd (run None ascii_engine ?evs (init_builder 7))).
             carries_upper_codes ascii_engine None r"
    using team_codes_uppercase [OF ascii_upper_examples(1,2), where env = None
        and evs = ?evs and k = 7 and v = "[]" and s = init_form and fevs = "[]"]
    by blast
  show ?thesis
    using ascii_upper_examples(1,2) t unfolding e
    by (simp add: API_def)
qed


subsection \<open>Rounding to doubles\<close>

text \<open>The exponent is the right one, the rounded value is a significand of at most 53
  bits at that exponent, and it is within half a unit in the last place.\<close>

lemma bit_length_bounds:
  "0 < k \<Longrightarrow> 2 ^ (bit_length k - 1) \<le> k \<and> k < 2 ^ bit_length k"
proof (induction k rule: bit_length.induct)
  case (1 k)
  show ?case
  proof (cases "k div 2 = 0")
    case True
    with "1.prems" have k1: "k = 1" by (simp add: div_eq_0_iff) 
    have "bit_length k = 1" unfolding k1 by (simp add: bit_length.simps)
    then show ?thesis by (simp add: k1)
  next
    case False
    then have pos: "0 < k div 2" by simp
    from "1.IH" [OF _ pos] "1.prems"
    have ih: "2 ^ (bit_length (k div 2) - 1) \<le> k div 2" "k div 2 < 2 ^ bit_length (k div 2)"
      by simp_all
    have bl: "bit_length k = Suc (bit_length (k div 2))"
      using "1.prems" by (subst bit_length.simps) simp
    have b1: "0 < bit_length (k div 2)"
      using pos by (subst bit_length.simps) simp
    then obtain j where j: "bit_length (k div 2) = Suc j"
      by (cases "bit_length (k div 2)") simp_all
    have "2 * 2 ^ j \<le> k" using ih(1) j by simp
    moreover have "k < 2 * 2 ^ Suc j" using ih(2) j by simp
    ultimately show ?thesis by (simp add: bl j)
  qed
qed

lemma bit_length_pos: "0 < k \<Longrightarrow> 0 < bit_length k"
  by (subst bit_length.simps) simp

lemma floor_log2_bounds:
  assumes "0 < q"
  shows "pow2 (floor_log2 q) \<le> q \<and> q < pow2 (floor_log2 q + 1)"
proof (cases "1 \<le> q")
  case True
  define m where "m = nat \<lfloor>q\<rfloor>"
  have m1: "0 < m" using True by (simp add: m_def)
  have mq: "of_nat m \<le> q" "q < of_nat m + 1"
    using True by (simp_all add: m_def) linarith+
  obtain j where j: "bit_length m = Suc j"
    using bit_length_pos [OF m1] by (cases "bit_length m") simp_all
  from bit_length_bounds [OF m1] j have b: "2 ^ j \<le> m" "m < 2 * 2 ^ j" by simp_all
  have fl: "floor_log2 q = int j"
    using True by (simp add: floor_log2_def m_def [symmetric] j)
  have "(2::rat) ^ j \<le> of_nat m" using b(1) by (metis of_nat_le_iff of_nat_numeral of_nat_power)
  moreover have "(of_nat m :: rat) + 1 \<le> 2 * 2 ^ j"
  proof -
    have "m + 1 \<le> 2 * 2 ^ j" using b(2) by simp
    then have "(of_nat (m + 1) :: rat) \<le> of_nat (2 * 2 ^ j)" by (simp only: of_nat_le_iff)
    then show ?thesis by simp
  qed
  moreover have "pow2 (floor_log2 q) = 2 ^ j"
    by (simp add: fl pow2_def)
  moreover have "pow2 (floor_log2 q + 1) = 2 * 2 ^ j"
    by (simp add: fl pow2_def nat_add_distrib)
  ultimately show ?thesis using mq by linarith
next
  case False
  define x where "x = 1 / q"
  have x1: "1 < x" using False assms by (simp add: x_def)
  define m where "m = nat (\<lceil>x\<rceil> - 1)"
  have c2: "2 \<le> \<lceil>x\<rceil>" using x1 by linarith
  then have m1: "0 < m" by (simp add: m_def)
  have mx: "of_nat m < x" "x \<le> of_nat m + 1"
    using c2 by (simp_all add: m_def) linarith+
  obtain j where j: "bit_length m = Suc j"
    using bit_length_pos [OF m1] by (cases "bit_length m") simp_all
  from bit_length_bounds [OF m1] j have b: "2 ^ j \<le> m" "m < 2 * 2 ^ j" by simp_all
  have fl: "floor_log2 q = - int (Suc j)"
    using False by (simp add: floor_log2_def x_def [symmetric] m_def [symmetric] j)
  have lo: "(2::rat) ^ j < x"
  proof -
    have "(2::rat) ^ j \<le> of_nat m" using b(1) by (metis of_nat_le_iff of_nat_numeral of_nat_power)
    then show ?thesis using mx(1) by linarith
  qed
  have hi: "x \<le> 2 * 2 ^ j"
  proof -
    have "m + 1 \<le> 2 * 2 ^ j" using b(2) by simp
    then have "(of_nat (m + 1) :: rat) \<le> of_nat (2 * 2 ^ j)" by (simp only: of_nat_le_iff)
    then have "(of_nat m :: rat) + 1 \<le> 2 * 2 ^ j" by simp
    then show ?thesis using mx(2) by linarith
  qed
  have qx: "q = 1 / x" using assms by (simp add: x_def)
  have xp: "0 < x" using x1 by simp
  have p: "(0::rat) < 2 ^ j" by simp
  have a: "1 / (2 * 2 ^ j) \<le> q"
    unfolding qx using hi xp by (simp add: frac_le)
  have b': "q < 1 / 2 ^ j"
    unfolding qx using lo p by (simp add: frac_less2)
  have e1: "pow2 (floor_log2 q) = 1 / (2 * 2 ^ j)"
    by (simp add: fl pow2_def nat_add_distrib)
  have e2: "pow2 (floor_log2 q + 1) = 1 / 2 ^ j"
    by (cases j) (simp_all add: fl pow2_def nat_add_distrib)
  show ?thesis using a b' by (simp only: e1 e2) 
qed

lemma pow2_powi: "pow2 e = 2 powi e"
  by (simp add: pow2_def power_int_def inverse_eq_divide power_one_over)

lemma pow2_pos: "0 < pow2 e"
  by (simp add: pow2_powi)

lemma pow2_add: "pow2 (a + b) = pow2 a * pow2 b"
  by (simp add: pow2_powi power_int_add)

lemma pow2_mono: "a \<le> b \<Longrightarrow> pow2 a \<le> pow2 b"
  by (simp add: pow2_powi power_int_increasing)

lemma pow2_53: "pow2 53 = 2 ^ 53"
  by (simp add: pow2_def)

lemma round_half_even_error: "\<bar>of_int (round_half_even q) - q\<bar> \<le> 1 / 2"
proof -
  have "of_int \<lfloor>q\<rfloor> \<le> q" "q < of_int \<lfloor>q\<rfloor> + 1" by linarith+
  then show ?thesis
    by (auto simp add: round_half_even_def Let_def) 
qed

lemma round_half_even_le:
  assumes "q \<le> of_int k"
  shows "round_half_even q \<le> k"
proof -
  have f: "\<lfloor>q\<rfloor> \<le> k" using assms by (simp add: floor_le_iff) 
  show ?thesis
  proof (cases "\<lfloor>q\<rfloor> = k")
    case True
    then have "q - of_int \<lfloor>q\<rfloor> \<le> 0" using assms by simp
    then show ?thesis using True by (simp add: round_half_even_def Let_def)
  next
    case False
    then have "\<lfloor>q\<rfloor> + 1 \<le> k" using f by simp
    then show ?thesis by (auto simp add: round_half_even_def Let_def)
  qed
qed

lemma round_half_even_nonneg: "0 \<le> q \<Longrightarrow> 0 \<le> round_half_even q"
  by (auto simp add: round_half_even_def Let_def)

lemma nearest_double_error:
  assumes "q \<noteq> 0"
  shows "\<bar>nearest_double q - q\<bar> \<le> pow2 (max (floor_log2 \<bar>q\<bar>) (- 1022) - 52) / 2"
proof -
  define u where "u = pow2 (max (floor_log2 \<bar>q\<bar>) (- 1022) - 52)"
  have up: "0 < u" by (simp add: u_def pow2_pos)
  define m where "m = round_half_even (\<bar>q\<bar> / u)"
  have nd: "nearest_double q = sgn q * (of_int m * u)"
    using assms by (simp add: nearest_double_def Let_def u_def m_def)
  have "\<bar>of_int m - \<bar>q\<bar> / u\<bar> \<le> 1 / 2"
    unfolding m_def by (rule round_half_even_error)
  then have "\<bar>of_int m - \<bar>q\<bar> / u\<bar> * u \<le> 1 / 2 * u"
    using up by (simp add: mult_right_mono)
  then have "\<bar>(of_int m - \<bar>q\<bar> / u) * u\<bar> \<le> u / 2"
    using up by (simp add: abs_mult)
  then have e: "\<bar>of_int m * u - \<bar>q\<bar>\<bar> \<le> u / 2"
    using up by (simp add: algebra_simps)
  have "\<bar>nearest_double q - q\<bar> = \<bar>of_int m * u - \<bar>q\<bar>\<bar>"
  proof (cases "0 < q")
    case True
    then show ?thesis by (simp add: nd)
  next
    case False
    with assms have neg: "q < 0" by simp
    have "\<bar>nearest_double q - q\<bar> = \<bar>- (of_int m * u - \<bar>q\<bar>)\<bar>"
      using neg by (simp add: nd)
    then show ?thesis by (simp only: abs_minus_cancel)
  qed
  then show ?thesis using e by (simp add: u_def)
qed

lemma nearest_double_significand:
  assumes "q \<noteq> 0"
  shows "\<exists>m. \<bar>nearest_double q\<bar> = of_int m * pow2 (max (floor_log2 \<bar>q\<bar>) (- 1022) - 52)
             \<and> 0 \<le> m \<and> m \<le> 2 ^ 53"
proof -
  define e where "e = max (floor_log2 \<bar>q\<bar>) (- 1022)"
  define u where "u = pow2 (e - 52)"
  have up: "0 < u" by (simp add: u_def pow2_pos)
  define m where "m = round_half_even (\<bar>q\<bar> / u)"
  have nd: "nearest_double q = sgn q * (of_int m * u)"
    using assms by (simp add: nearest_double_def Let_def u_def e_def m_def)
  have qp: "0 < \<bar>q\<bar>" using assms by simp
  have "\<bar>q\<bar> < pow2 (floor_log2 \<bar>q\<bar> + 1)"
    using floor_log2_bounds [OF qp] by simp
  also have "\<dots> \<le> pow2 (e + 1)"
    by (rule pow2_mono) (simp add: e_def)
  also have "\<dots> = pow2 ((e - 52) + 53)"
    by (rule arg_cong [where f = pow2]) simp
  also have "\<dots> = u * 2 ^ 53"
    unfolding pow2_add pow2_53 u_def by simp
  finally have "\<bar>q\<bar> / u < 2 ^ 53"
    using up by (simp add: pos_divide_less_eq mult.commute)
  then have "\<bar>q\<bar> / u \<le> of_int (2 ^ 53)" by simp
  then have hi: "m \<le> 2 ^ 53" unfolding m_def by (rule round_half_even_le)
  have lo: "0 \<le> m" unfolding m_def using up by (intro round_half_even_nonneg) simp
  have "\<bar>nearest_double q\<bar> = of_int m * u"
    unfolding nd using assms lo up by (simp add: abs_mult abs_sgn_eq)
  then show ?thesis using lo hi unfolding u_def e_def by blast
qed

subsection \<open>Percentages\<close>

lemma decimal_nonempty: "decimal k \<noteq> []"
  by (subst decimal.simps) simp

lemma fixed_digits_one:
  "fixed_digits k (Suc 0) = decimal (k div 10) @ ''.'' @ decimal (k mod 10)"
proof (cases "k < 10")
  case True
  then have "decimal k = [''0123456789'' ! k]"
    by (subst decimal.simps) simp
  moreover have "decimal 0 = ''0''"
    by (subst decimal.simps) simp
  ultimately show ?thesis
    using True by (simp add: fixed_digits_def)
next
  case False
  have m: "decimal k = decimal (k div 10) @ [''0123456789'' ! (k mod 10)]"
    using False by (subst decimal.simps) simp
  have d: "decimal (k mod 10) = [''0123456789'' ! (k mod 10)]"
    by (subst decimal.simps) simp
  show ?thesis
    using decimal_nonempty [of "k div 10"]
    by (simp add: fixed_digits_def m d Let_def Suc_le_eq)
qed

lemma toFixed_one_decimal:
  assumes "0 \<le> p" and "p < 10 ^ 21"
  shows "toFixed eng (Finite p) 1 = Inr (rounded_to_one_decimal p)"
  using assms by (simp add: toFixed_def rounded_to_one_decimal_def fixed_digits_one Let_def)

lemma nearest_tenth:
  fixes p :: rat
  assumes "0 \<le> p"
  shows "\<bar>of_nat (nat \<lfloor>p * 10 + 1 / 2\<rfloor>) / 10 - p\<bar> \<le> 1 / 20"
proof -
  define k where "k = \<lfloor>p * 10 + 1 / 2\<rfloor>"
  have nn: "0 \<le> k"
    using assms by (simp add: k_def)
  have "of_int k \<le> p * 10 + 1 / 2" and "p * 10 + 1 / 2 < of_int k + 1"
    unfolding k_def by linarith+
  then have "\<bar>of_int k / 10 - p\<bar> \<le> 1 / 20"
    by linarith
  moreover have "(of_nat (nat k) :: rat) = of_int k"
    using nn by simp
  ultimately show ?thesis
    unfolding k_def by simp
qed

lemma double_0231: "nearest_double (231 / 1000) = 8322652111380677 / 36028797018963968"
  by code_simp

lemma double_0231_times_100:
  "nearest_double (8322652111380677 / 36028797018963968 * 100)
     = 3251035981008077 / 140737488355328"
  by code_simp

lemma product_0231:
  "multiply (nearest_double (231 / 1000)) 100 = Finite (3251035981008077 / 140737488355328)"
  unfolding multiply_def double_0231 double_0231_times_100 Let_def
  by simp

lemma one_decimal_0231:
  "rounded_to_one_decimal (3251035981008077 / 140737488355328) = ''23.1''"
  by code_simp

lemma text_0231: "toFixed eng (multiply (nearest_double (231 / 1000)) 100) 1 = Inr ''23.1''"
  unfolding product_0231
  by (subst toFixed_one_decimal) (simp_all add: one_decimal_0231)

text \<open>
  C8. A rate of \<^verbatim>\<open>0.231\<close> is shown as \<^verbatim>\<open>23.1%\<close> in the TD, the FG and the turnover cell.
  In general each cell shows the double product of its rate and 100 rounded to one
  decimal place and followed by \<^verbatim>\<open>%\<close>, whenever that product is non-negative and below
  \<open>10\<^sup>2\<^sup>1\<close>.
\<close>

theorem rate_percentage_text:
  "(td_rate sm = nearest_double (231 / 1000) \<longrightarrow> td_rate_text eng sm = Inr ''23.1%'') \<and>
   (fg_rate sm = nearest_double (231 / 1000) \<longrightarrow> fg_rate_text eng sm = Inr ''23.1%'') \<and>
   (turnover_rate sm = nearest_double (231 / 1000) \<longrightarrow>
      turnover_rate_text eng sm = Inr ''23.1%'') \<and>
   (\<forall>p. multiply (td_rate sm) 100 = Finite p \<and> 0 \<le> p \<and> p < 10 ^ 21 \<longrightarrow>
      td_rate_text eng sm = Inr (rounded_to_one_decimal p @ ''%'')) \<and>
   (\<forall>p. multiply (fg_rate sm) 100 = Finite p \<and> 0 \<le> p \<and> p < 10 ^ 21 \<longrightarrow>
      fg_rate_text eng sm = Inr (rounded_to_one_decimal p @ ''%'')) \<and>
   (\<forall>p. multiply (turnover_rate sm) 100 = Finite p \<and> 0 \<le> p \<and> p < 10 ^ 21 \<longrightarrow>
      turnover_rate_text eng sm = Inr (rounded_to_one_decimal p @ ''%''))"
proof -
  have a: "followed_by (toFixed eng (multiply (nearest_double (231 / 1000)) 100) 1) ''%''
             = Inr ''23.1%''"
    unfolding text_0231 by simp
  have b: "followed_by (toFixed eng (Finite p) 1) ''%'' = Inr (rounded_to_one_decimal p @ ''%'')"
    if "0 \<le> p" and "p < 10 ^ 21" for p
    using toFixed_one_decimal [OF that, of eng] by simp
  show ?thesis
    unfolding td_rate_text_def fg_rate_text_def turnover_rate_text_def
    using a b by auto
qed

theorem rate_percentage_text_witness:
  "td_rate summary_0231 = nearest_double (231 / 1000) \<and>
   fg_rate summary_0231 = nearest_double (231 / 1000) \<and>
   turnover_rate summary_0231 = nearest_double (231 / 1000) \<and>
   multiply (td_rate summary_0231) 100 = Finite (3251035981008077 / 140737488355328) \<and>
   (0 :: rat) \<le> 3251035981008077 / 140737488355328 \<and>
   (3251035981008077 / 140737488355328 :: rat) < 10 ^ 21 \<and>
   td_rate_text ascii_engine summary_0231 = Inr ''23.1%'' \<and>
   fg_rate_text ascii_engine summary_0231 = Inr ''23.1%'' \<and>
   turnover_rate_text ascii_engine summary_0231 = Inr ''23.1%'' \<and>
   td_rate_text ascii_engine summary_0231
     = Inr (rounded_to_one_decimal (3251035981008077 / 140737488355328) @ ''%'')"
proof -
  have r: "td_rate summary_0231 = nearest_double (231 / 1000)"
          "fg_rate summary_0231 = nearest_double (231 / 1000)"
          "turnover_rate summary_0231 = nearest_double (231 / 1000)"
    by (simp_all add: summary_0231_def)
  have m: "multiply (td_rate summary_0231) 100 = Finite (3251035981008077 / 140737488355328)"
    by (simp add: r product_0231)
  have q: "(0 :: rat) \<le> 3251035981008077 / 140737488355328"
          "(3251035981008077 / 140737488355328 :: rat) < 10 ^ 21"
    by simp_all
  show ?thesis
    using r m q rate_percentage_text [of summary_0231 ascii_engine]
    by blast
qed


end
